theory Spec2Isabelle
  imports Complex_Main "HOL-Library.Sublist"
begin

section \<open>Metric vectors of \<^verbatim>\<open>cvss/common/metrics.go\<close>\<close>

text \<open>
  The package keeps a vector of metric selections as a Go map from metric name to value
  (\<^verbatim>\<open>Metrics\<close>) and, on top of it, a vector that only accepts the metrics and values of a
  table of weights (\<^verbatim>\<open>WeightsMetrics\<close>).

  Modelling decisions:
  \<^item> a Go \<^verbatim>\<open>string\<close> is a sequence of bytes: \<^typ>\<open>string\<close>;
  \<^item> a value of the map type \<^verbatim>\<open>Metrics\<close> is either nil (\<^verbatim>\<open>var ms Metrics\<close>, the field of
    \<^verbatim>\<open>WeightsMetrics{Weights: t}\<close>) or a map that has been made (\<^verbatim>\<open>make(Metrics)\<close>, a map
    literal), whose content is a partial function. Reading a nil map is reading an empty
    map; assigning to a nil map panics. The methods mutate the map in place, the model
    returns the new map;
  \<^item> the table \<^verbatim>\<open>Weights\<close> and its inner maps are only read, so a nil one is the empty
    partial function;
  \<^item> an \<^verbatim>\<open>error\<close> result is a value of the datatype \<open>error\<close>, \<^verbatim>\<open>nil\<close> is \<open>None\<close>; a function
    that can panic returns \<open>Inl\<close> of the panic, or \<open>Inr\<close> of what it returns;
  \<^item> \<^verbatim>\<open>for k, v := range m\<close> visits every entry of the map once, in an order that Go
    leaves open and that may differ at every loop: the functions that range over a map
    take the visit order as a parameter \<open>rng\<close>, and the theorems hold for every order
    that enumerates the map (\<open>range_of\<close>);
  \<^item> a \<^verbatim>\<open>float64\<close> weight is only stored, looked up and returned, never computed with:
    the weights are of any type \<open>'w\<close> with a zero, the value Go returns for a missing key.
\<close>

subsection \<open>The library functions the package calls\<close>

text \<open>
  \<^verbatim>\<open>strings.Split(s, sep)\<close> cuts \<open>s\<close> at the occurrences of \<open>sep\<close>, found from the left and
  not overlapping, and returns the pieces between them: one more piece than there are
  occurrences, so the empty string gives one empty piece. \<open>cur\<close> is the piece being read.
  The package calls it with its two one-byte separators only; Go's special case of an
  empty separator (one piece per UTF-8 sequence) is not reached and is not modelled: the
  model does not cut there.
\<close>

function Split_from :: "string \<Rightarrow> string \<Rightarrow> string \<Rightarrow> string list" where
  "Split_from sep cur [] = [cur]"
| "Split_from sep cur (c # s) =
     (if sep \<noteq> [] \<and> prefix sep (c # s)
      then cur # Split_from sep [] (drop (length sep) (c # s))
      else Split_from sep (cur @ [c]) s)"
  by pat_completeness auto
termination
  by (relation "measure (\<lambda>(sep, cur, s). length s)") auto

definition Split :: "string \<Rightarrow> string \<Rightarrow> string list" where
  "Split s sep = Split_from sep [] s"

text \<open>\<^verbatim>\<open>strings.Join(elems, sep)\<close>: the elements with \<open>sep\<close> between neighbours.\<close>

fun Join :: "string list \<Rightarrow> string \<Rightarrow> string" where
  "Join [] sep = []"
| "Join [e] sep = e"
| "Join (e # e' # elems) sep = e @ sep @ Join (e' # elems) sep"

text \<open>\<^verbatim>\<open>fmt.Sprintf("%s%s%s", a, b, c)\<close>.\<close>

definition Sprintf_sss :: "string \<Rightarrow> string \<Rightarrow> string \<Rightarrow> string" where
  "Sprintf_sss a b c = a @ b @ c"

text \<open>
  One visit order of \<^verbatim>\<open>range m\<close>: every entry of \<open>m\<close> once. Such an order exists exactly
  when the map is finite, as every Go map is.
\<close>

definition range_of :: "('k \<rightharpoonup> 'v) \<Rightarrow> ('k \<times> 'v) list \<Rightarrow> bool" where
  "range_of m ps \<longleftrightarrow> distinct (map fst ps) \<and> map_of ps = m"

subsection \<open>Errors\<close>

text \<open>
  The package's errors are messages; the model keeps which message it is and the values
  printed in it. The last three are \<^verbatim>\<open>errors.Wrapf\<close> around a cause.
\<close>

datatype error =
    NotFound string                 \<comment> \<open>\<^verbatim>\<open>metric %q not defined\<close>\<close>
  | MalformedToken string           \<comment> \<open>\<^verbatim>\<open>need two values separated by :, got %q\<close>\<close>
  | DuplicateMetric string          \<comment> \<open>\<^verbatim>\<open>metric %q already set\<close>\<close>
  | UnknownMetric string            \<comment> \<open>\<^verbatim>\<open>metric %q not defined for vector\<close>\<close>
  | InvalidValue string string      \<comment> \<open>\<^verbatim>\<open>can't set metric %q to %q\<close>\<close>
  | ParseContext error              \<comment> \<open>\<^verbatim>\<open>unable to parse metrics\<close>\<close>
  | SetContext string string error  \<comment> \<open>\<^verbatim>\<open>unable to set metric %q to %q\<close>\<close>
  | WeightContext string error      \<comment> \<open>\<^verbatim>\<open>unable to get value for metric %q\<close>\<close>

text \<open>
  The panics: the runtime's \<^verbatim>\<open>assignment to entry in nil map\<close>, and \<^verbatim>\<open>panic(err)\<close> of
  \<open>WeightMust\<close>.
\<close>

datatype panic =
    NilMapAssignment
  | ErrorPanic error

subsection \<open>Metrics\<close>

definition partSeparator :: string where
  "partSeparator = ''/''"

definition metricSeparator :: string where
  "metricSeparator = '':''"

datatype Metrics =
    nil_map
  | made "string \<rightharpoonup> string"

text \<open>What reading finds in a map: \<^verbatim>\<open>ms[m]\<close> and \<^verbatim>\<open>range ms\<close> take a nil map for an empty one.\<close>

fun entries :: "Metrics \<Rightarrow> (string \<rightharpoonup> string)" where
  "entries nil_map = Map.empty"
| "entries (made m) = m"

definition Metrics_Get :: "Metrics \<Rightarrow> string \<Rightarrow> error + string" where
  "Metrics_Get ms m =
     (case entries ms m of Some val \<Rightarrow> Inr val | None \<Rightarrow> Inl (NotFound m))"

text \<open>
  \<open>Set\<close> assigns \<^verbatim>\<open>ms[metric] = value\<close>: on a nil map the assignment panics; on a made
  map \<open>Set\<close> returns, and the result is the map after the assignment and the error
  result, always \<^verbatim>\<open>nil\<close>.
\<close>

fun Metrics_Set :: "Metrics \<Rightarrow> string \<Rightarrow> string \<Rightarrow> panic + (Metrics \<times> error option)" where
  "Metrics_Set nil_map metric val = Inl NilMapAssignment"
| "Metrics_Set (made m) metric val = Inr (made (m(metric \<mapsto> val)), None)"

definition Metrics_String :: "(Metrics \<Rightarrow> (string \<times> string) list) \<Rightarrow> Metrics \<Rightarrow> string" where
  "Metrics_String rng ms =
     Join (map (\<lambda>(metric, val). Sprintf_sss metric metricSeparator val) (rng ms)) partSeparator"

text \<open>
  The loop of \<open>strToMetrics\<close> over the parts still to read. \<open>metrics\<close> is the content of
  the local map, which \<^verbatim>\<open>make(Metrics)\<close> has made, so the assignment to it does not panic and
  the map returned is a made one. \<open>tmp ! 0\<close> and \<open>tmp ! 1\<close> are read only where \<open>tmp\<close> has
  two elements.
\<close>

fun strToMetrics_loop :: "(string \<rightharpoonup> string) \<Rightarrow> string list \<Rightarrow> error + Metrics" where
  "strToMetrics_loop metrics [] = Inr (made metrics)"
| "strToMetrics_loop metrics (part # parts) =
     (let tmp = Split part metricSeparator in
      if length tmp \<noteq> 2 then Inl (MalformedToken part)
      else if metrics (tmp ! 0) \<noteq> None then Inl (DuplicateMetric (tmp ! 0))
      else strToMetrics_loop (metrics(tmp ! 0 \<mapsto> tmp ! 1)) parts)"

definition strToMetrics :: "string \<Rightarrow> error + Metrics" where
  "strToMetrics str = strToMetrics_loop Map.empty (Split str partSeparator)"

subsection \<open>WeightsMetrics\<close>

record 'w WeightsMetrics =
  Metrics :: Metrics
  Weights :: "string \<rightharpoonup> (string \<rightharpoonup> 'w)"

definition WeightsMetrics_Set ::
  "'w WeightsMetrics \<Rightarrow> string \<Rightarrow> string
     \<Rightarrow> panic + ('w WeightsMetrics \<times> error option)" where
  "WeightsMetrics_Set wms metric val =
     (case Weights wms metric of
        None \<Rightarrow> Inr (wms, Some (UnknownMetric metric))
      | Some vals \<Rightarrow>
          (case vals val of
             None \<Rightarrow> Inr (wms, Some (InvalidValue metric val))
           | Some _ \<Rightarrow>
               (case Metrics_Set (Metrics wms) metric val of
                  Inl p \<Rightarrow> Inl p
                | Inr (ms, err) \<Rightarrow> Inr (wms\<lparr>Metrics := ms\<rparr>, err))))"

text \<open>
  The loop of \<open>Parse\<close> over the pairs still to visit: it stops at the first \<open>Set\<close> that
  fails, and a panic of \<open>Set\<close> is a panic of the loop.
\<close>

fun Parse_loop ::
  "'w WeightsMetrics \<Rightarrow> (string \<times> string) list
     \<Rightarrow> panic + ('w WeightsMetrics \<times> error option)" where
  "Parse_loop wms [] = Inr (wms, None)"
| "Parse_loop wms ((metric, val) # ps) =
     (case WeightsMetrics_Set wms metric val of
        Inl p \<Rightarrow> Inl p
      | Inr (wms', Some err) \<Rightarrow> Inr (wms', Some (SetContext metric val err))
      | Inr (wms', None) \<Rightarrow> Parse_loop wms' ps)"

definition WeightsMetrics_Parse ::
  "(Metrics \<Rightarrow> (string \<times> string) list) \<Rightarrow> 'w WeightsMetrics \<Rightarrow> string
     \<Rightarrow> panic + ('w WeightsMetrics \<times> error option)" where
  "WeightsMetrics_Parse rng wms str =
     (case strToMetrics str of
        Inl err \<Rightarrow> Inr (wms, Some (ParseContext err))
      | Inr metrics \<Rightarrow> Parse_loop wms (rng metrics))"

text \<open>
  \<^verbatim>\<open>wms.Weights[metric][value]\<close>: indexing a Go map with a key it does not have gives the
  zero value of the element type, a nil map for the outer table and 0 for the inner one,
  and indexing a nil map gives the zero value as well.
\<close>

definition Weights_index :: "(string \<rightharpoonup> (string \<rightharpoonup> 'w::zero)) \<Rightarrow> string \<Rightarrow> string \<Rightarrow> 'w" where
  "Weights_index W metric val =
     (case W metric of
        None \<Rightarrow> 0
      | Some vals \<Rightarrow> (case vals val of None \<Rightarrow> 0 | Some w \<Rightarrow> w))"

definition Weight :: "('w::zero) WeightsMetrics \<Rightarrow> string \<Rightarrow> error + 'w" where
  "Weight wms metric =
     (case Metrics_Get (Metrics wms) metric of
        Inl err \<Rightarrow> Inl (WeightContext metric err)
      | Inr val \<Rightarrow> Inr (Weights_index (Weights wms) metric val))"

text \<open>\<open>WeightMust\<close> panics with the error of \<open>Weight\<close>.\<close>

definition WeightMust :: "('w::zero) WeightsMetrics \<Rightarrow> string \<Rightarrow> panic + 'w" where
  "WeightMust wms metric =
     (case Weight wms metric of Inl err \<Rightarrow> Inl (ErrorPanic err) | Inr w \<Rightarrow> Inr w)"

definition WeightDefault :: "('w::zero) WeightsMetrics \<Rightarrow> string \<Rightarrow> 'w \<Rightarrow> 'w" where
  "WeightDefault wms metric def = (case Weight wms metric of Inr w \<Rightarrow> w | Inl err \<Rightarrow> def)"

subsection \<open>Vocabulary of the properties\<close>

text \<open>
  A part of the input that \<open>strToMetrics\<close> accepts splits at the metric separator into
  exactly two pieces, the metric name and the value.
\<close>

definition well_formed :: "string \<Rightarrow> bool" where
  "well_formed part \<longleftrightarrow> length (Split part metricSeparator) = 2"

definition token_metric :: "string \<Rightarrow> string" where
  "token_metric part = Split part metricSeparator ! 0"

definition token_value :: "string \<Rightarrow> string" where
  "token_value part = Split part metricSeparator ! 1"

definition token_pair :: "string \<Rightarrow> string \<times> string" where
  "token_pair part = (token_metric part, token_value part)"

text \<open>A name or value that contains neither separator.\<close>

definition sep_free :: "string \<Rightarrow> bool" where
  "sep_free s \<longleftrightarrow> set s \<inter> (set partSeparator \<union> set metricSeparator) = {}"

text \<open>
  The vectors built from a fresh map, made or nil, by calls of \<open>Metrics.Set\<close> that return
  and whose metric and value contain no separator. The empty vector is built by no call
  at all.
\<close>

inductive built_by_Set :: "Metrics \<Rightarrow> bool" where
  fresh: "built_by_Set (made Map.empty)"
| fresh_nil: "built_by_Set nil_map"
| set: "built_by_Set ms \<Longrightarrow> sep_free metric \<Longrightarrow> sep_free val \<Longrightarrow>
    Metrics_Set ms metric val = Inr (ms', err) \<Longrightarrow> built_by_Set ms'"

text \<open>The table of weights has the metric, and the value under it.\<close>

definition accepts :: "(string \<rightharpoonup> (string \<rightharpoonup> 'w)) \<Rightarrow> string \<Rightarrow> string \<Rightarrow> bool" where
  "accepts W metric val \<longleftrightarrow> (case W metric of None \<Rightarrow> False | Some vals \<Rightarrow> val \<in> dom vals)"

text \<open>Every pair stored in the vector is a pair of the table.\<close>

definition table_holds :: "'w WeightsMetrics \<Rightarrow> bool" where
  "table_holds wms \<longleftrightarrow>
     (\<forall>m v. entries (Metrics wms) m = Some v \<longrightarrow> accepts (Weights wms) m v)"

text \<open>
  The states a vector passes through when it is only touched by \<open>WeightsMetrics.Set\<close> and
  \<open>WeightsMetrics.Parse\<close>, whether the call returns an error or not:
  \<open>reachable_from wms0 wms\<close> says that \<open>wms\<close> comes after \<open>wms0\<close> by any number of such calls.
  Each \<open>Parse\<close> ranges over the parsed map in an order of its own. A call that panics
  gives no new state: the one panic of these calls is the assignment to a nil map, which
  assigns nothing, and on a nil map no assignment before it has happened.
\<close>

inductive reachable_from :: "'w WeightsMetrics \<Rightarrow> 'w WeightsMetrics \<Rightarrow> bool"
  for wms0 :: "'w WeightsMetrics" where
  now: "reachable_from wms0 wms0"
| after_Set: "reachable_from wms0 wms \<Longrightarrow>
    WeightsMetrics_Set wms metric val = Inr (wms', err) \<Longrightarrow>
    reachable_from wms0 wms'"
| after_Parse: "reachable_from wms0 wms \<Longrightarrow>
    (\<forall>metrics. strToMetrics str = Inr metrics \<longrightarrow>
       range_of (entries metrics) (rng metrics)) \<Longrightarrow>
    WeightsMetrics_Parse rng wms str = Inr (wms', err) \<Longrightarrow>
    reachable_from wms0 wms'"

subsection \<open>The weight table of the examples\<close>

text \<open>One metric, \<^verbatim>\<open>AV\<close>, with the values \<^verbatim>\<open>N\<close> (0.85) and \<^verbatim>\<open>A\<close> (0.62), and a vector over it.\<close>

definition AV_table :: "string \<rightharpoonup> (string \<rightharpoonup> real)" where
  "AV_table = [''AV'' \<mapsto> [''N'' \<mapsto> 85 / 100, ''A'' \<mapsto> 62 / 100]]"

definition AV_vector :: "Metrics \<Rightarrow> real WeightsMetrics" where
  "AV_vector ms = \<lparr>Metrics = ms, Weights = AV_table\<rparr>"

section \<open>Splitting and joining at a one-byte separator\<close>

lemma Split_from_no_sep:
  "c \<notin> set s \<Longrightarrow> Split_from [c] cur s = [cur @ s]"
  by (induction s arbitrary: cur) auto

lemma Split_from_at_sep:
  "c \<notin> set a \<Longrightarrow> Split_from [c] cur (a @ c # rest) = (cur @ a) # Split_from [c] [] rest"
  by (induction a arbitrary: cur) auto

lemma Split_token:
  assumes "CHR '':'' \<notin> set m" and "CHR '':'' \<notin> set v"
  shows "Split (m @ metricSeparator @ v) metricSeparator = [m, v]"
  using assms
  by (simp add: Split_def metricSeparator_def Split_from_at_sep Split_from_no_sep)

lemma Split_Join:
  assumes "\<forall>p \<in> set parts. c \<notin> set p" and "parts \<noteq> []"
  shows "Split_from [c] [] (Join parts [c]) = parts"
  using assms
proof (induction parts "[c]" rule: Join.induct)
  case 1
  then show ?case by simp
next
  case (2 e)
  then show ?case by (simp add: Split_from_no_sep)
next
  case (3 e e' elems)
  then show ?case by (simp add: Split_from_at_sep)
qed

lemma sep_free_iff:
  "sep_free s \<longleftrightarrow> CHR ''/'' \<notin> set s \<and> CHR '':'' \<notin> set s"
  by (auto simp: sep_free_def partSeparator_def metricSeparator_def)

lemma token_of_pair:
  assumes "CHR '':'' \<notin> set m" and "CHR '':'' \<notin> set v"
  shows "well_formed (Sprintf_sss m metricSeparator v)"
    and "token_metric (Sprintf_sss m metricSeparator v) = m"
    and "token_value (Sprintf_sss m metricSeparator v) = v"
  using Split_token [OF assms]
  by (simp_all add: well_formed_def token_metric_def token_value_def Sprintf_sss_def)

section \<open>The loop of strToMetrics\<close>

lemma strToMetrics_loop_step:
  assumes "well_formed t" and "metrics (token_metric t) = None"
  shows "strToMetrics_loop metrics (t # ts) =
    strToMetrics_loop (metrics(token_metric t \<mapsto> token_value t)) ts"
  using assms by (simp add: well_formed_def token_metric_def token_value_def Let_def)

lemma strToMetrics_loop_append:
  "strToMetrics_loop metrics (pre @ rest) =
     (case strToMetrics_loop metrics pre of
        Inl e \<Rightarrow> Inl e
      | Inr ms \<Rightarrow> strToMetrics_loop (entries ms) rest)"
  by (induction pre arbitrary: metrics) (auto simp: Let_def)

text \<open>The loop returns a map only for well-formed parts with new and different names.\<close>

lemma strToMetrics_loop_success:
  "strToMetrics_loop metrics ts = Inr ms \<Longrightarrow>
     (\<forall>t \<in> set ts. well_formed t) \<and> distinct (map token_metric ts) \<and>
     token_metric ` set ts \<inter> dom metrics = {} \<and> dom metrics \<subseteq> dom (entries ms)"
proof (induction ts arbitrary: metrics)
  case Nil
  then show ?case by auto
next
  case (Cons t ts)
  from Cons.prems have wf: "well_formed t" and fresh: "metrics (token_metric t) = None"
    by (auto simp: well_formed_def token_metric_def Let_def split: if_splits)
  let ?ms = "metrics(token_metric t \<mapsto> token_value t)"
  have "strToMetrics_loop metrics (t # ts) = strToMetrics_loop ?ms ts"
    using wf fresh by (rule strToMetrics_loop_step)
  with Cons.prems have "strToMetrics_loop ?ms ts = Inr ms"
    by simp
  then have ih: "(\<forall>t \<in> set ts. well_formed t) \<and> distinct (map token_metric ts) \<and>
      token_metric ` set ts \<inter> dom ?ms = {} \<and> dom ?ms \<subseteq> dom (entries ms)"
    by (rule Cons.IH)
  then have "token_metric t \<notin> token_metric ` set ts"
    and "token_metric ` set ts \<inter> dom metrics = {}"
    and "dom metrics \<subseteq> dom (entries ms)"
    by auto
  with ih wf fresh show ?case by (auto simp: domIff)
qed

text \<open>The two errors of the loop.\<close>

lemma strToMetrics_loop_errors:
  "strToMetrics_loop metrics ts = Inl e \<Longrightarrow>
     (\<exists>m. e = DuplicateMetric m) \<or> (\<exists>t. e = MalformedToken t)"
  by (induction ts arbitrary: metrics) (auto simp: Let_def split: if_splits)

text \<open>Parts that are all well formed, with names that are new and differ from each other.\<close>

lemma strToMetrics_loop_pairs:
  assumes "\<forall>t \<in> set ts. well_formed t"
    and "distinct (map token_metric ts)"
    and "token_metric ` set ts \<inter> dom metrics = {}"
  shows "strToMetrics_loop metrics ts = Inr (made (metrics ++ map_of (map token_pair ts)))"
  using assms
proof (induction ts arbitrary: metrics)
  case Nil
  then show ?case by simp
next
  case (Cons t ts)
  let ?ms = "metrics(token_metric t \<mapsto> token_value t)"
  have fresh: "metrics (token_metric t) = None"
    using Cons.prems(3) by (auto simp: domIff)
  have notin: "token_metric t \<notin> token_metric ` set ts"
    using Cons.prems(2) by simp
  have wft: "well_formed t" and wf': "\<forall>t \<in> set ts. well_formed t"
    using Cons.prems(1) by simp_all
  have dist': "distinct (map token_metric ts)"
    using Cons.prems(2) by simp
  have disj': "token_metric ` set ts \<inter> dom ?ms = {}"
    using Cons.prems(3) notin by auto
  have "strToMetrics_loop metrics (t # ts) = strToMetrics_loop ?ms ts"
    using wft fresh by (rule strToMetrics_loop_step)
  also have "\<dots> = Inr (made (?ms ++ map_of (map token_pair ts)))"
    by (rule Cons.IH [OF wf' dist' disj'])
  also have "?ms ++ map_of (map token_pair ts) = metrics ++ map_of (map token_pair (t # ts))"
  proof -
    have "token_metric t \<notin> dom (map_of (map token_pair ts))"
      using notin by (auto simp: dom_map_of_conv_image_fst token_pair_def image_image)
    then show ?thesis
      by (simp add: map_add_upd_left token_pair_def)
  qed
  finally show ?case .
qed

text \<open>A name that comes a second time, after well-formed parts only.\<close>

lemma strToMetrics_loop_duplicate:
  assumes "\<forall>t \<in> set pre. well_formed t" and "well_formed tok"
    and "token_metric tok \<in> dom metrics \<union> token_metric ` set pre"
  shows "\<exists>m \<in> dom metrics \<union> token_metric ` set pre.
    strToMetrics_loop metrics (pre @ tok # post) = Inl (DuplicateMetric m)"
  using assms
proof (induction pre arbitrary: metrics)
  case Nil
  then show ?case by (auto simp: well_formed_def token_metric_def Let_def)
next
  case (Cons t pre)
  have wft: "well_formed t" and wf: "\<forall>t \<in> set pre. well_formed t"
    using Cons.prems(1) by simp_all
  show ?case
  proof (cases "metrics (token_metric t) = None")
    case True
    let ?ms = "metrics(token_metric t \<mapsto> token_value t)"
    have dup: "token_metric tok \<in> dom ?ms \<union> token_metric ` set pre"
      using Cons.prems(3) by auto
    have "\<exists>m \<in> dom ?ms \<union> token_metric ` set pre.
        strToMetrics_loop ?ms (pre @ tok # post) = Inl (DuplicateMetric m)"
      by (rule Cons.IH [OF wf Cons.prems(2) dup])
    moreover have "strToMetrics_loop metrics (t # pre @ tok # post) =
        strToMetrics_loop ?ms (pre @ tok # post)"
      using wft True by (rule strToMetrics_loop_step)
    ultimately show ?thesis by auto
  next
    case False
    then have "strToMetrics_loop metrics ((t # pre) @ tok # post) =
        Inl (DuplicateMetric (token_metric t))"
      using wft by (simp add: well_formed_def token_metric_def Let_def)
    moreover have "token_metric t \<in> dom metrics"
      using False by (simp add: domIff)
    ultimately show ?thesis by auto
  qed
qed

text \<open>A part that is not well formed, after well-formed parts with different names.\<close>

lemma strToMetrics_loop_malformed:
  assumes "\<forall>t \<in> set pre. well_formed t"
    and "distinct (map token_metric pre)"
    and "token_metric ` set pre \<inter> dom metrics = {}"
    and "\<not> well_formed tok"
  shows "strToMetrics_loop metrics (pre @ tok # post) = Inl (MalformedToken tok)"
  using assms
  by (simp add: strToMetrics_loop_append strToMetrics_loop_pairs well_formed_def Let_def)

text \<open>Parsing what was joined from pairs without separators gives the pairs back.\<close>

lemma parse_joined_pairs:
  assumes "ps \<noteq> []" and "distinct (map fst ps)"
    and "\<forall>(m, v) \<in> set ps. sep_free m \<and> sep_free v"
  shows "strToMetrics (Join (map (\<lambda>(m, v). Sprintf_sss m metricSeparator v) ps) partSeparator)
    = Inr (made (map_of ps))"
proof -
  let ?tok = "\<lambda>(m, v). Sprintf_sss m metricSeparator v"
  let ?ts = "map ?tok ps"
  have no_slash: "\<forall>p \<in> set ?ts. CHR ''/'' \<notin> set p"
    using assms(3) by (auto simp: sep_free_iff Sprintf_sss_def metricSeparator_def)
  have "?ts \<noteq> []" using assms(1) by simp
  with no_slash have split: "Split (Join ?ts partSeparator) partSeparator = ?ts"
    unfolding Split_def partSeparator_def by (rule Split_Join)
  have wf: "\<forall>t \<in> set ?ts. well_formed t"
    using assms(3) by (auto simp: sep_free_iff token_of_pair)
  have names: "map token_metric ?ts = map fst ps"
    using assms(3) by (auto simp: sep_free_iff token_of_pair)
  have "\<forall>p \<in> set ps. token_pair (?tok p) = p"
    using assms(3) by (auto simp: sep_free_iff token_of_pair token_pair_def)
  then have pairs: "map token_pair ?ts = ps"
    by (simp add: map_idI)
  have "strToMetrics_loop Map.empty ?ts = Inr (made (Map.empty ++ map_of (map token_pair ?ts)))"
    using wf assms(2)
    by (intro strToMetrics_loop_pairs) (simp_all only: names dom_empty Int_empty_right)
  then have "strToMetrics_loop Map.empty ?ts = Inr (made (map_of ps))"
    unfolding pairs by simp
  then show ?thesis
    unfolding strToMetrics_def split .
qed

lemma Metrics_Set_returns:
  "Metrics_Set ms metric val = Inr (ms', err) \<Longrightarrow>
     ms' = made ((entries ms)(metric \<mapsto> val)) \<and> err = None \<and> ms \<noteq> nil_map"
  by (cases ms) auto

lemma built_by_Set_sep_free:
  "built_by_Set ms \<Longrightarrow> entries ms m = Some v \<Longrightarrow> sep_free m \<and> sep_free v"
  by (induction arbitrary: m v rule: built_by_Set.induct)
     (auto dest!: Metrics_Set_returns split: if_splits)

section \<open>Set and the loop of Parse on a weighted vector\<close>

lemma WeightsMetrics_Set_accepts:
  "accepts (Weights wms) metric val \<Longrightarrow> Metrics wms = made m \<Longrightarrow>
     WeightsMetrics_Set wms metric val =
       Inr (wms\<lparr>Metrics := made (m(metric \<mapsto> val))\<rparr>, None)"
  by (auto simp: accepts_def WeightsMetrics_Set_def split: option.splits)

lemma WeightsMetrics_Set_on_nil:
  "accepts (Weights wms) metric val \<Longrightarrow> Metrics wms = nil_map \<Longrightarrow>
     WeightsMetrics_Set wms metric val = Inl NilMapAssignment"
  by (auto simp: accepts_def WeightsMetrics_Set_def split: option.splits)

lemma WeightsMetrics_Set_rejects:
  "\<not> accepts (Weights wms) metric val \<Longrightarrow>
     WeightsMetrics_Set wms metric val =
       Inr (wms, Some (if Weights wms metric = None then UnknownMetric metric
                       else InvalidValue metric val))"
  by (auto simp: accepts_def WeightsMetrics_Set_def split: option.splits)

text \<open>What a \<open>Set\<close> that returns has done: nothing, or stored a pair of the table.\<close>

lemma WeightsMetrics_Set_returns:
  assumes "WeightsMetrics_Set wms metric val = Inr (wms', err)"
  shows "(wms' = wms \<and> err \<noteq> None \<and> \<not> accepts (Weights wms) metric val) \<or>
    (wms' = wms\<lparr>Metrics := made ((entries (Metrics wms))(metric \<mapsto> val))\<rparr> \<and> err = None \<and>
     accepts (Weights wms) metric val \<and> Metrics wms \<noteq> nil_map)"
proof (cases "accepts (Weights wms) metric val")
  case False
  with assms WeightsMetrics_Set_rejects [OF False] show ?thesis by auto
next
  case True
  show ?thesis
  proof (cases "Metrics wms")
    case nil_map
    with assms WeightsMetrics_Set_on_nil [OF True nil_map] show ?thesis by simp
  next
    case (made m)
    with assms WeightsMetrics_Set_accepts [OF True made] True show ?thesis by auto
  qed
qed

lemma Parse_loop_accepted:
  assumes "\<forall>(m, v) \<in> set pre. accepts (Weights wms) m v" and "distinct (map fst pre)"
    and "Metrics wms = made ms"
  shows "Parse_loop wms (pre @ rest) =
    Parse_loop (wms\<lparr>Metrics := made (ms ++ map_of pre)\<rparr>) rest"
  using assms
proof (induction pre arbitrary: wms ms)
  case Nil
  then show ?case by (cases wms) simp
next
  case (Cons p pre)
  obtain m v where p: "p = (m, v)" by (cases p)
  let ?wms = "wms\<lparr>Metrics := made (ms(m \<mapsto> v))\<rparr>"
  have acc: "accepts (Weights wms) m v"
    using Cons.prems(1) p by simp
  have accs: "\<forall>(m, v) \<in> set pre. accepts (Weights ?wms) m v"
    using Cons.prems(1) by simp
  have dist: "distinct (map fst pre)"
    using Cons.prems(2) by simp
  have mk: "Metrics ?wms = made (ms(m \<mapsto> v))"
    by simp
  have notin: "m \<notin> dom (map_of pre)"
    using Cons.prems(2) p by (simp add: dom_map_of_conv_image_fst)
  have "Parse_loop wms ((p # pre) @ rest) = Parse_loop ?wms (pre @ rest)"
    using WeightsMetrics_Set_accepts [OF acc Cons.prems(3)] by (simp add: p)
  also have "\<dots> = Parse_loop (?wms\<lparr>Metrics := made (ms(m \<mapsto> v) ++ map_of pre)\<rparr>) rest"
    using accs dist mk by (rule Cons.IH)
  also have "?wms\<lparr>Metrics := made (ms(m \<mapsto> v) ++ map_of pre)\<rparr> =
      wms\<lparr>Metrics := made (ms ++ map_of (p # pre))\<rparr>"
    using notin by (simp add: p map_add_upd_left)
  finally show ?case .
qed

text \<open>
  What \<open>Set\<close> and the loop of \<open>Parse\<close> keep when they return: the stored pairs are pairs of
  the table, the table is the same, and a metric that is set stays set.
\<close>

lemma WeightsMetrics_Set_keeps:
  assumes "WeightsMetrics_Set wms metric val = Inr (wms', err)"
  shows "Weights wms' = Weights wms"
    and "dom (entries (Metrics wms)) \<subseteq> dom (entries (Metrics wms'))"
    and "table_holds wms \<Longrightarrow> table_holds wms'"
  using WeightsMetrics_Set_returns [OF assms]
  by (auto simp: table_holds_def split: if_splits)

lemma Parse_loop_keeps:
  "Parse_loop wms ps = Inr (wms', err) \<Longrightarrow>
     Weights wms' = Weights wms \<and>
     dom (entries (Metrics wms)) \<subseteq> dom (entries (Metrics wms')) \<and>
     (table_holds wms \<longrightarrow> table_holds wms')"
proof (induction ps arbitrary: wms)
  case Nil
  then show ?case by simp
next
  case (Cons p ps)
  obtain metric val where p: "p = (metric, val)" by (cases p)
  from Cons.prems obtain wms1 err1 where s: "WeightsMetrics_Set wms metric val = Inr (wms1, err1)"
    by (auto simp: p split: sum.splits)
  note keep = WeightsMetrics_Set_keeps [OF s]
  show ?case
  proof (cases err1)
    case None
    with Cons.prems s have "Parse_loop wms1 ps = Inr (wms', err)"
      by (simp add: p)
    then have ih: "Weights wms' = Weights wms1 \<and>
        dom (entries (Metrics wms1)) \<subseteq> dom (entries (Metrics wms')) \<and>
        (table_holds wms1 \<longrightarrow> table_holds wms')"
      by (rule Cons.IH)
    from keep(1) ih have "Weights wms' = Weights wms"
      by simp
    moreover from keep(2) ih
    have "dom (entries (Metrics wms)) \<subseteq> dom (entries (Metrics wms'))"
      by (blast intro: subset_trans)
    moreover from keep(3) ih have "table_holds wms \<longrightarrow> table_holds wms'"
      by blast
    ultimately show ?thesis by blast
  next
    case (Some e)
    with Cons.prems s have "wms' = wms1" by (simp add: p)
    with keep show ?thesis by simp
  qed
qed

lemma WeightsMetrics_Parse_keeps:
  assumes "WeightsMetrics_Parse rng wms str = Inr (wms', err)"
  shows "Weights wms' = Weights wms \<and>
     dom (entries (Metrics wms)) \<subseteq> dom (entries (Metrics wms')) \<and>
     (table_holds wms \<longrightarrow> table_holds wms')"
proof (cases "strToMetrics str")
  case (Inl e)
  with assms show ?thesis by (simp add: WeightsMetrics_Parse_def)
next
  case (Inr metrics)
  with assms have "Parse_loop wms (rng metrics) = Inr (wms', err)"
    by (simp add: WeightsMetrics_Parse_def)
  then show ?thesis by (rule Parse_loop_keeps)
qed

lemma reachable_from_keeps:
  "reachable_from wms0 wms \<Longrightarrow>
     Weights wms = Weights wms0 \<and>
     dom (entries (Metrics wms0)) \<subseteq> dom (entries (Metrics wms)) \<and>
     (table_holds wms0 \<longrightarrow> table_holds wms)"
proof (induction rule: reachable_from.induct)
  case now
  then show ?case by simp
next
  case (after_Set wms metric val wms' err)
  note keep = WeightsMetrics_Set_keeps [OF after_Set.hyps(2)]
  from keep(1) after_Set.IH have "Weights wms' = Weights wms0"
    by simp
  moreover from keep(2) after_Set.IH
  have "dom (entries (Metrics wms0)) \<subseteq> dom (entries (Metrics wms'))"
    by (blast intro: subset_trans)
  moreover from keep(3) after_Set.IH have "table_holds wms0 \<longrightarrow> table_holds wms'"
    by blast
  ultimately show ?case by blast
next
  case (after_Parse wms str rng wms' err)
  note keep = WeightsMetrics_Parse_keeps [OF after_Parse.hyps(3)]
  from keep after_Parse.IH have "Weights wms' = Weights wms0"
    by simp
  moreover from keep after_Parse.IH
  have "dom (entries (Metrics wms0)) \<subseteq> dom (entries (Metrics wms'))"
    by (blast intro: subset_trans)
  moreover from keep after_Parse.IH have "table_holds wms0 \<longrightarrow> table_holds wms'"
    by blast
  ultimately show ?case by blast
qed

section \<open>Metrics: Get and Set\<close>

text \<open>
  C8, as the specification states it, fails: \<open>Metrics.Set\<close> on a nil map panics, so it is
  not true of every \<open>Metrics\<close> that \<open>Set\<close> never fails.
\<close>

theorem Set_on_nil_counterexample:
  "Metrics_Set nil_map ''AV'' ''N'' = Inl NilMapAssignment"
  by simp

text \<open>
  C8, amended. For every \<open>Metrics\<close> that is not nil, \<open>Set\<close> does not fail and stores the
  pair whatever the map held for the metric before: the map afterwards holds what the
  old one held, with the metric bound to the value. Calling \<open>Set(m, v)\<close> twice returns no
  error either time, the second call leaves the map as the first one left it, and
  \<open>Get(m)\<close> returns \<open>v\<close> afterwards.
\<close>

theorem Metrics_Set_twice:
  assumes "ms \<noteq> nil_map"
  shows "\<exists>ms1. Metrics_Set ms m v = Inr (ms1, None) \<and>
    Metrics_Set ms1 m v = Inr (ms1, None) \<and>
    Metrics_Get ms1 m = Inr v \<and>
    entries ms1 = (entries ms)(m \<mapsto> v) \<and> ms1 \<noteq> nil_map"
  using assms by (cases ms) (simp_all add: Metrics_Get_def)

theorem Metrics_Set_twice_witness:
  "made [''AV'' \<mapsto> ''L''] \<noteq> nil_map \<and>
   Metrics_Set (made [''AV'' \<mapsto> ''L'']) ''AV'' ''N'' = Inr (made [''AV'' \<mapsto> ''N''], None) \<and>
   Metrics_Set (made [''AV'' \<mapsto> ''N'']) ''AV'' ''N'' = Inr (made [''AV'' \<mapsto> ''N''], None) \<and>
   Metrics_Get (made [''AV'' \<mapsto> ''N'']) ''AV'' = Inr ''N''"
proof -
  have n: "made [''AV'' \<mapsto> ''L''] \<noteq> nil_map"
    by simp
  from Metrics_Set_twice [OF n, of "''AV''" "''N''"] n show ?thesis
    by auto
qed

section \<open>Round trip through String and strToMetrics\<close>

text \<open>
  C1, as the specification states it, fails: the vector built by no \<open>Set\<close> call is
  serialized as the empty string, which \<open>strToMetrics\<close> rejects.
\<close>

theorem round_trip_empty_counterexample:
  "built_by_Set (made Map.empty) \<and> range_of (entries (made Map.empty)) [] \<and>
   Metrics_String (\<lambda>ms. []) (made Map.empty) = [] \<and>
   strToMetrics (Metrics_String (\<lambda>ms. []) (made Map.empty)) = Inl (MalformedToken [])"
  by (simp add: built_by_Set.fresh range_of_def Metrics_String_def strToMetrics_def Split_def
      partSeparator_def metricSeparator_def)

text \<open>
  C1, amended. For every vector that is not empty and was built by \<open>Set\<close> calls whose
  metric names and values contain neither separator, parsing the string that \<open>String\<close>
  produces succeeds and gives back the vector, in whatever order \<open>String\<close> visited the
  entries.
\<close>

theorem round_trip:
  assumes "built_by_Set ms" and "entries ms \<noteq> Map.empty"
    and "range_of (entries ms) (rng ms)"
  shows "strToMetrics (Metrics_String rng ms) = Inr ms"
proof -
  from assms(2) have ms: "ms = made (entries ms)"
    by (cases ms) simp_all
  from assms(3) have dist: "distinct (map fst (rng ms))"
    and eq: "map_of (rng ms) = entries ms"
    by (simp_all add: range_of_def)
  from eq assms(2) have ne: "rng ms \<noteq> []" by auto
  have "\<forall>(m, v) \<in> set (rng ms). sep_free m \<and> sep_free v"
  proof clarify
    fix m v assume "(m, v) \<in> set (rng ms)"
    with dist have "map_of (rng ms) m = Some v" by simp
    with eq have "entries ms m = Some v" by simp
    with assms(1) show "sep_free m \<and> sep_free v" by (rule built_by_Set_sep_free)
  qed
  with ne dist have "strToMetrics (Join (map (\<lambda>(m, v). Sprintf_sss m metricSeparator v) (rng ms))
      partSeparator) = Inr (made (map_of (rng ms)))"
    by (rule parse_joined_pairs)
  then have "strToMetrics (Metrics_String rng ms) = Inr (made (entries ms))"
    by (simp add: Metrics_String_def eq)
  with ms show ?thesis by simp
qed

theorem round_trip_witness:
  "built_by_Set (made [''AV'' \<mapsto> ''N'', ''AC'' \<mapsto> ''L'']) \<and>
   entries (made [''AV'' \<mapsto> ''N'', ''AC'' \<mapsto> ''L'']) \<noteq> Map.empty \<and>
   range_of (entries (made [''AV'' \<mapsto> ''N'', ''AC'' \<mapsto> ''L''])) [(''AC'', ''L''), (''AV'', ''N'')] \<and>
   Metrics_String (\<lambda>ms. [(''AC'', ''L''), (''AV'', ''N'')]) (made [''AV'' \<mapsto> ''N'', ''AC'' \<mapsto> ''L''])
     = ''AC:L/AV:N'' \<and>
   strToMetrics ''AC:L/AV:N'' = Inr (made [''AV'' \<mapsto> ''N'', ''AC'' \<mapsto> ''L''])"
proof -
  let ?ms = "made [''AV'' \<mapsto> ''N'', ''AC'' \<mapsto> ''L'']"
  have "built_by_Set (made [''AV'' \<mapsto> ''N''])"
    by (rule built_by_Set.set [OF built_by_Set.fresh, of "''AV''" "''N''" _ None])
       (simp_all add: sep_free_iff)
  then have b: "built_by_Set ?ms"
    by (rule built_by_Set.set [of _ "''AC''" "''L''" _ None]) (simp_all add: sep_free_iff)
  have n: "entries ?ms \<noteq> Map.empty"
    by simp
  have r: "range_of (entries ?ms) [(''AC'', ''L''), (''AV'', ''N'')]"
    by (simp add: range_of_def)
  have s: "Metrics_String (\<lambda>ms. [(''AC'', ''L''), (''AV'', ''N'')]) ?ms = ''AC:L/AV:N''"
    by (simp add: Metrics_String_def Sprintf_sss_def metricSeparator_def partSeparator_def)
  from round_trip [of _ "\<lambda>ms. [(''AC'', ''L''), (''AV'', ''N'')]", OF b n r] s
  have "strToMetrics ''AC:L/AV:N'' = Inr ?ms"
    by simp
  with b n r s show ?thesis by blast
qed

section \<open>The errors of strToMetrics\<close>

text \<open>
  C4, as the specification states it, fails: \<open>strToMetrics\<close> returns the first error it
  meets, so a malformed part that comes before the second occurrence of a metric name
  decides the error. \<^verbatim>\<open>X/A:B/A:C\<close> has the name \<^verbatim>\<open>A\<close> in two parts and is rejected as
  malformed.
\<close>

theorem duplicate_after_malformed_counterexample:
  "Split ''X/A:B/A:C'' partSeparator = [''X'', ''A:B'', ''A:C''] \<and>
   token_metric ''A:B'' = ''A'' \<and> token_metric ''A:C'' = ''A'' \<and>
   strToMetrics ''X/A:B/A:C'' = Inl (MalformedToken ''X'')"
  by (simp add: strToMetrics_def Split_def partSeparator_def metricSeparator_def token_metric_def)

text \<open>
  C4, amended. For every input string in which the same metric name appears in two
  parts, parsing fails; it fails with DuplicateMetric, naming a metric of the earlier
  parts, when the second of the two parts and every part before it split at the metric
  separator into exactly two pieces, and with DuplicateMetric or MalformedToken
  otherwise. The failure happens in \<open>strToMetrics\<close>, before any \<open>Set\<close>, so
  \<open>WeightsMetrics.Parse\<close> of every such string returns that error, wrapped, and leaves the
  vector as it was. The metric name of a part is what stands before its first metric
  separator.
\<close>

theorem duplicate_metric_rejected:
  "(\<forall>pre tok post.
      Split str partSeparator = pre @ tok # post \<and> (\<forall>t \<in> set pre. well_formed t) \<and>
      well_formed tok \<and> token_metric tok \<in> token_metric ` set pre \<longrightarrow>
      (\<exists>m \<in> token_metric ` set pre.
         strToMetrics str = Inl (DuplicateMetric m) \<and>
         WeightsMetrics_Parse rng wms str = Inr (wms, Some (ParseContext (DuplicateMetric m))))) \<and>
   (\<not> distinct (map token_metric (Split str partSeparator)) \<longrightarrow>
      (\<exists>e. strToMetrics str = Inl e \<and>
         ((\<exists>m. e = DuplicateMetric m) \<or> (\<exists>t. e = MalformedToken t)) \<and>
         WeightsMetrics_Parse rng wms str = Inr (wms, Some (ParseContext e))))"
proof (intro conjI allI impI)
  fix pre tok post
  assume h: "Split str partSeparator = pre @ tok # post \<and> (\<forall>t \<in> set pre. well_formed t) \<and>
      well_formed tok \<and> token_metric tok \<in> token_metric ` set pre"
  then have wf: "\<forall>t \<in> set pre. well_formed t" and wft: "well_formed tok"
    and dup: "token_metric tok \<in> dom (Map.empty :: string \<rightharpoonup> string) \<union> token_metric ` set pre"
    by simp_all
  have "\<exists>m \<in> dom (Map.empty :: string \<rightharpoonup> string) \<union> token_metric ` set pre.
      strToMetrics_loop Map.empty (pre @ tok # post) = Inl (DuplicateMetric m)"
    using wf wft dup by (rule strToMetrics_loop_duplicate)
  then obtain m where "m \<in> token_metric ` set pre"
    and "strToMetrics str = Inl (DuplicateMetric m)"
    using h by (auto simp: strToMetrics_def)
  then show "\<exists>m \<in> token_metric ` set pre.
      strToMetrics str = Inl (DuplicateMetric m) \<and>
      WeightsMetrics_Parse rng wms str = Inr (wms, Some (ParseContext (DuplicateMetric m)))"
    by (auto simp: WeightsMetrics_Parse_def)
next
  assume nd: "\<not> distinct (map token_metric (Split str partSeparator))"
  have "strToMetrics str \<noteq> Inr ms" for ms
    using strToMetrics_loop_success [of Map.empty "Split str partSeparator" ms] nd
    by (auto simp: strToMetrics_def)
  then obtain e where e: "strToMetrics str = Inl e"
    by (cases "strToMetrics str") auto
  then have "(\<exists>m. e = DuplicateMetric m) \<or> (\<exists>t. e = MalformedToken t)"
    unfolding strToMetrics_def by (rule strToMetrics_loop_errors)
  with e show "\<exists>e. strToMetrics str = Inl e \<and>
      ((\<exists>m. e = DuplicateMetric m) \<or> (\<exists>t. e = MalformedToken t)) \<and>
      WeightsMetrics_Parse rng wms str = Inr (wms, Some (ParseContext e))"
    by (simp add: WeightsMetrics_Parse_def)
qed

theorem duplicate_metric_rejected_witness:
  "Split ''AV:N/AV:A'' partSeparator = [''AV:N''] @ ''AV:A'' # [] \<and>
   well_formed ''AV:N'' \<and> well_formed ''AV:A'' \<and>
   token_metric ''AV:A'' = token_metric ''AV:N'' \<and>
   strToMetrics ''AV:N/AV:A'' = Inl (DuplicateMetric ''AV'') \<and>
   WeightsMetrics_Parse (\<lambda>ms. []) (AV_vector (made Map.empty)) ''AV:N/AV:A''
     = Inr (AV_vector (made Map.empty), Some (ParseContext (DuplicateMetric ''AV''))) \<and>
   map token_metric (Split ''X/A:B/A:C'' partSeparator) = [''X'', ''A'', ''A''] \<and>
   WeightsMetrics_Parse (\<lambda>ms. []) (AV_vector (made [''AV'' \<mapsto> ''N''])) ''X/A:B/A:C''
     = Inr (AV_vector (made [''AV'' \<mapsto> ''N'']), Some (ParseContext (MalformedToken ''X'')))"
proof -
  have h1: "Split ''AV:N/AV:A'' partSeparator = [''AV:N''] @ ''AV:A'' # []"
    by (simp add: Split_def partSeparator_def)
  have h2: "well_formed ''AV:N''" and h3: "well_formed ''AV:A''"
    by (simp_all add: well_formed_def Split_def metricSeparator_def)
  have h4: "token_metric ''AV:A'' = token_metric ''AV:N''" and n: "token_metric ''AV:N'' = ''AV''"
    by (simp_all add: token_metric_def Split_def metricSeparator_def)
  have g: "map token_metric (Split ''X/A:B/A:C'' partSeparator) = [''X'', ''A'', ''A'']"
    by (simp add: token_metric_def Split_def metricSeparator_def partSeparator_def)
  have x: "strToMetrics ''X/A:B/A:C'' = Inl (MalformedToken ''X'')"
    by (simp add: strToMetrics_def Split_def partSeparator_def metricSeparator_def)
  from duplicate_metric_rejected [of "''AV:N/AV:A''" "\<lambda>ms. []" "AV_vector (made Map.empty)"]
    h1 h2 h3 h4 n
  have a: "strToMetrics ''AV:N/AV:A'' = Inl (DuplicateMetric ''AV'') \<and>
    WeightsMetrics_Parse (\<lambda>ms. []) (AV_vector (made Map.empty)) ''AV:N/AV:A''
      = Inr (AV_vector (made Map.empty), Some (ParseContext (DuplicateMetric ''AV'')))"
    by (elim conjE allE [of _ "[''AV:N'']"] allE [of _ "''AV:A''"] allE [of _ "[]"]) simp
  from duplicate_metric_rejected [of "''X/A:B/A:C''" "\<lambda>ms. []" "AV_vector (made [''AV'' \<mapsto> ''N''])"]
    g x
  have b: "WeightsMetrics_Parse (\<lambda>ms. []) (AV_vector (made [''AV'' \<mapsto> ''N''])) ''X/A:B/A:C''
      = Inr (AV_vector (made [''AV'' \<mapsto> ''N'']), Some (ParseContext (MalformedToken ''X'')))"
    by auto
  from h1 h2 h3 h4 a g b show ?thesis by blast
qed

text \<open>
  C5, as the specification states it, fails for the same reason: a metric name that
  comes a second time before the malformed part decides the error. \<^verbatim>\<open>A:B/A:C/D\<close> has the
  part \<^verbatim>\<open>D\<close> without a separator and is rejected as a duplicate.
\<close>

theorem malformed_after_duplicate_counterexample:
  "Split ''A:B/A:C/D'' partSeparator = [''A:B'', ''A:C'', ''D''] \<and>
   \<not> well_formed ''D'' \<and>
   strToMetrics ''A:B/A:C/D'' = Inl (DuplicateMetric ''A'')"
  by (simp add: strToMetrics_def Split_def partSeparator_def metricSeparator_def well_formed_def)

text \<open>
  C5, amended. For every input string with a part that does not split at the metric
  separator into exactly two pieces, where the parts before it do and have different
  metric names, \<open>strToMetrics\<close> fails with MalformedToken for that part. For every string
  whose parts all split into exactly two pieces and have different metric names,
  \<open>strToMetrics\<close> succeeds and returns exactly the parsed pairs.
\<close>

theorem strToMetrics_tokens:
  "(\<forall>pre tok post.
      Split str partSeparator = pre @ tok # post \<and> (\<forall>t \<in> set pre. well_formed t) \<and>
      distinct (map token_metric pre) \<and> \<not> well_formed tok \<longrightarrow>
      strToMetrics str = Inl (MalformedToken tok)) \<and>
   ((\<forall>t \<in> set (Split str partSeparator). well_formed t) \<and>
    distinct (map token_metric (Split str partSeparator)) \<longrightarrow>
      strToMetrics str = Inr (made (map_of (map token_pair (Split str partSeparator)))))"
  by (simp add: strToMetrics_def strToMetrics_loop_malformed strToMetrics_loop_pairs)

theorem strToMetrics_tokens_witness:
  "Split ''A:B/C'' partSeparator = [''A:B''] @ ''C'' # [] \<and>
   well_formed ''A:B'' \<and> \<not> well_formed ''C'' \<and>
   strToMetrics ''A:B/C'' = Inl (MalformedToken ''C'') \<and>
   Split ''A:B:C'' partSeparator = [] @ ''A:B:C'' # [] \<and> \<not> well_formed ''A:B:C'' \<and>
   strToMetrics ''A:B:C'' = Inl (MalformedToken ''A:B:C'') \<and>
   Split ''A:B/C:D'' partSeparator = [''A:B'', ''C:D''] \<and> well_formed ''C:D'' \<and>
   map token_metric [''A:B'', ''C:D''] = [''A'', ''C''] \<and>
   strToMetrics ''A:B/C:D'' = Inr (made [''C'' \<mapsto> ''D'', ''A'' \<mapsto> ''B''])"
proof -
  have s1: "Split ''A:B/C'' partSeparator = [''A:B''] @ ''C'' # []"
    and s2: "Split ''A:B:C'' partSeparator = [] @ ''A:B:C'' # []"
    and s3: "Split ''A:B/C:D'' partSeparator = [''A:B'', ''C:D'']"
    by (simp_all add: Split_def partSeparator_def)
  have w1: "well_formed ''A:B''" and w2: "\<not> well_formed ''C''"
    and w3: "\<not> well_formed ''A:B:C''" and w4: "well_formed ''C:D''"
    by (simp_all add: well_formed_def Split_def metricSeparator_def)
  have n: "map token_metric [''A:B'', ''C:D''] = [''A'', ''C'']"
    and p: "map token_pair [''A:B'', ''C:D''] = [(''A'', ''B''), (''C'', ''D'')]"
    by (simp_all add: token_pair_def token_metric_def token_value_def Split_def metricSeparator_def)
  from strToMetrics_tokens [of "''A:B/C''"] s1 w1 w2
  have r1: "strToMetrics ''A:B/C'' = Inl (MalformedToken ''C'')"
    by (elim conjE allE [of _ "[''A:B'']"] allE [of _ "''C''"] allE [of _ "[]"]) simp
  from strToMetrics_tokens [of "''A:B:C''"] s2 w3
  have r2: "strToMetrics ''A:B:C'' = Inl (MalformedToken ''A:B:C'')"
    by (elim conjE allE [of _ "[]"] allE [of _ "''A:B:C''"]) simp
  from strToMetrics_tokens [of "''A:B/C:D''"] s3 w1 w4 n p
  have r3: "strToMetrics ''A:B/C:D'' = Inr (made [''C'' \<mapsto> ''D'', ''A'' \<mapsto> ''B''])"
    by simp
  from s1 s2 s3 w1 w2 w3 w4 n r1 r2 r3 show ?thesis by blast
qed

section \<open>Parsing the empty string and empty identifiers\<close>

text \<open>
  C9. Parsing the empty string fails with MalformedToken, in \<open>strToMetrics\<close> and so in
  \<open>WeightsMetrics.Parse\<close>, which leaves the vector as it was: the empty string splits
  into the single part \<^verbatim>\<open>""\<close>, which has no metric separator. \<open>String\<close> of a vector with
  no entries is the empty string, in the one order there is to visit no entries, so the
  empty vector does not come back from \<open>String\<close> and \<open>strToMetrics\<close>.
\<close>

theorem empty_string_rejected:
  "Split [] partSeparator = [[]] \<and> \<not> well_formed [] \<and>
   strToMetrics [] = Inl (MalformedToken []) \<and>
   WeightsMetrics_Parse rng wms [] = Inr (wms, Some (ParseContext (MalformedToken []))) \<and>
   (entries ms = Map.empty \<and> range_of (entries ms) (rng ms) \<longrightarrow>
      Metrics_String rng ms = [] \<and>
      strToMetrics (Metrics_String rng ms) = Inl (MalformedToken []))"
proof -
  have e: "strToMetrics [] = Inl (MalformedToken [])"
    by (simp add: strToMetrics_def Split_def partSeparator_def metricSeparator_def)
  have "Metrics_String rng ms = [] \<and>
      strToMetrics (Metrics_String rng ms) = Inl (MalformedToken [])"
    if h: "entries ms = Map.empty \<and> range_of (entries ms) (rng ms)"
  proof -
    from h have "map_of (rng ms) = Map.empty"
      unfolding range_of_def by (elim conjE) (rule trans)
    then have "rng ms = []"
      by simp
    then have "Metrics_String rng ms = []"
      by (simp add: Metrics_String_def)
    with e show ?thesis by simp
  qed
  moreover have "Split [] partSeparator = [[]]" and "\<not> well_formed []"
    by (simp_all add: Split_def well_formed_def)
  moreover
  have "WeightsMetrics_Parse rng wms [] = Inr (wms, Some (ParseContext (MalformedToken [])))"
    using e by (simp add: WeightsMetrics_Parse_def)
  ultimately show ?thesis using e by blast
qed

theorem empty_string_rejected_witness:
  "entries (made Map.empty) = Map.empty \<and>
   range_of (entries (made Map.empty)) [] \<and>
   Metrics_String (\<lambda>ms. []) (made Map.empty) = [] \<and>
   strToMetrics (Metrics_String (\<lambda>ms. []) (made Map.empty)) = Inl (MalformedToken []) \<and>
   WeightsMetrics_Parse (\<lambda>ms. []) (AV_vector (made Map.empty)) []
     = Inr (AV_vector (made Map.empty), Some (ParseContext (MalformedToken [])))"
proof -
  have r: "range_of (entries (made Map.empty)) []"
    by (simp add: range_of_def)
  with empty_string_rejected [of "\<lambda>ms. []" "AV_vector (made Map.empty)" "made Map.empty"]
  show ?thesis
    by simp
qed

text \<open>
  C10. \<open>strToMetrics\<close> does not ask for identifiers that are not empty. The input \<^verbatim>\<open>:\<close>
  parses to the map that binds the empty metric name to the empty value. Any single
  part \<^verbatim>\<open>x:y\<close> whose \<open>x\<close> and \<open>y\<close> contain no separator parses to the map that binds \<open>x\<close> to
  \<open>y\<close>, and a part \<^verbatim>\<open>x:y\<close> anywhere in the input, with no metric separator in \<open>x\<close> and \<open>y\<close>
  and \<open>x\<close> not bound yet, is accepted and binds \<open>x\<close> to \<open>y\<close>: \<open>x\<close> and \<open>y\<close> may be empty.
\<close>

theorem empty_identifiers_accepted:
  "strToMetrics '':'' = Inr (made [[] \<mapsto> []]) \<and>
   (sep_free x \<and> sep_free y \<longrightarrow>
      strToMetrics (x @ metricSeparator @ y) = Inr (made [x \<mapsto> y])) \<and>
   (CHR '':'' \<notin> set x \<and> CHR '':'' \<notin> set y \<and> metrics x = None \<longrightarrow>
      strToMetrics_loop metrics ((x @ metricSeparator @ y) # parts) =
      strToMetrics_loop (metrics(x \<mapsto> y)) parts)"
proof (intro conjI impI)
  show "strToMetrics '':'' = Inr (made [[] \<mapsto> []])"
    by (simp add: strToMetrics_def Split_def partSeparator_def metricSeparator_def)
next
  assume "sep_free x \<and> sep_free y"
  then show "strToMetrics (x @ metricSeparator @ y) = Inr (made [x \<mapsto> y])"
    using parse_joined_pairs [of "[(x, y)]"] by (simp add: Sprintf_sss_def)
next
  assume "CHR '':'' \<notin> set x \<and> CHR '':'' \<notin> set y \<and> metrics x = None"
  then show "strToMetrics_loop metrics ((x @ metricSeparator @ y) # parts) =
      strToMetrics_loop (metrics(x \<mapsto> y)) parts"
    by (simp add: Split_token)
qed

theorem empty_identifiers_accepted_witness:
  "sep_free [] \<and> sep_free ''N'' \<and>
   strToMetrics '':N'' = Inr (made [[] \<mapsto> ''N'']) \<and>
   strToMetrics ''AV:'' = Inr (made [''AV'' \<mapsto> []]) \<and>
   strToMetrics_loop [''AV'' \<mapsto> ''N''] ['':''] = Inr (made [''AV'' \<mapsto> ''N'', [] \<mapsto> []]) \<and>
   strToMetrics ''AV:N/:'' = Inr (made [''AV'' \<mapsto> ''N'', [] \<mapsto> []])"
proof -
  have f: "sep_free []" "sep_free ''N''" "sep_free ''AV''"
    by (simp_all add: sep_free_iff)
  from empty_identifiers_accepted [of "[]" "''N''"] f
  have a: "strToMetrics '':N'' = Inr (made [[] \<mapsto> ''N''])"
    by (simp add: metricSeparator_def)
  from empty_identifiers_accepted [of "''AV''" "[]"] f
  have b: "strToMetrics ''AV:'' = Inr (made [''AV'' \<mapsto> []])"
    by (simp add: metricSeparator_def)
  from empty_identifiers_accepted [of "[]" "[]" "[''AV'' \<mapsto> ''N'']" "[]"]
  have c: "strToMetrics_loop [''AV'' \<mapsto> ''N''] ['':''] = Inr (made [''AV'' \<mapsto> ''N'', [] \<mapsto> []])"
    by (simp add: metricSeparator_def)
  have d: "strToMetrics ''AV:N/:'' = Inr (made [''AV'' \<mapsto> ''N'', [] \<mapsto> []])"
    by (simp add: strToMetrics_def Split_def partSeparator_def metricSeparator_def)
  from f a b c d show ?thesis by blast
qed

section \<open>WeightsMetrics: Set\<close>

text \<open>
  C3, as the specification states it, fails: with a metric and a value of the table,
  \<open>WeightsMetrics.Set\<close> on a vector whose \<open>Metrics\<close> is nil (\<^verbatim>\<open>WeightsMetrics{Weights: t}\<close>)
  does not succeed, it panics at the assignment.
\<close>

theorem weighted_Set_on_nil_counterexample:
  "accepts AV_table ''AV'' ''N'' \<and>
   WeightsMetrics_Set (AV_vector nil_map) ''AV'' ''N'' = Inl NilMapAssignment"
  by (simp add: accepts_def WeightsMetrics_Set_def AV_vector_def AV_table_def)

text \<open>
  C3, amended. For every weight table and every (metric, value):
  \<open>WeightsMetrics.Set(metric, value)\<close> fails with UnknownMetric when the metric is not a key
  of \<open>Weights\<close>, and fails with InvalidValue when it is a key and the value is not a key of
  \<open>Weights[metric]\<close>, in both cases leaving the vector as it was; otherwise, on a vector
  whose \<open>Metrics\<close> is not nil, it succeeds and stores the pair in the underlying \<open>Metrics\<close>,
  and on a vector whose \<open>Metrics\<close> is nil it panics.
\<close>

theorem WeightsMetrics_Set_cases:
  "(Weights wms metric = None \<longrightarrow>
      WeightsMetrics_Set wms metric val = Inr (wms, Some (UnknownMetric metric))) \<and>
   (\<forall>vals. Weights wms metric = Some vals \<and> val \<notin> dom vals \<longrightarrow>
      WeightsMetrics_Set wms metric val = Inr (wms, Some (InvalidValue metric val))) \<and>
   (\<forall>vals m. Weights wms metric = Some vals \<and> val \<in> dom vals \<and> Metrics wms = made m \<longrightarrow>
      WeightsMetrics_Set wms metric val =
        Inr (wms\<lparr>Metrics := made (m(metric \<mapsto> val))\<rparr>, None)) \<and>
   (\<forall>vals. Weights wms metric = Some vals \<and> val \<in> dom vals \<and> Metrics wms = nil_map \<longrightarrow>
      WeightsMetrics_Set wms metric val = Inl NilMapAssignment)"
  by (auto simp add: WeightsMetrics_Set_def split: option.splits)

theorem WeightsMetrics_Set_cases_witness:
  "Weights (AV_vector (made Map.empty)) ''XX'' = None \<and>
   WeightsMetrics_Set (AV_vector (made Map.empty)) ''XX'' ''N''
     = Inr (AV_vector (made Map.empty), Some (UnknownMetric ''XX'')) \<and>
   WeightsMetrics_Set (AV_vector (made Map.empty)) ''AV'' ''Z''
     = Inr (AV_vector (made Map.empty), Some (InvalidValue ''AV'' ''Z'')) \<and>
   WeightsMetrics_Set (AV_vector (made Map.empty)) ''AV'' ''N''
     = Inr (AV_vector (made [''AV'' \<mapsto> ''N'']), None) \<and>
   WeightsMetrics_Set (AV_vector nil_map) ''AV'' ''Z''
     = Inr (AV_vector nil_map, Some (InvalidValue ''AV'' ''Z'')) \<and>
   WeightsMetrics_Set (AV_vector nil_map) ''AV'' ''A'' = Inl NilMapAssignment"
  using WeightsMetrics_Set_cases [of "AV_vector (made Map.empty)" "''XX''" "''N''"]
    WeightsMetrics_Set_cases [of "AV_vector (made Map.empty)" "''AV''" "''Z''"]
    WeightsMetrics_Set_cases [of "AV_vector (made Map.empty)" "''AV''" "''N''"]
    WeightsMetrics_Set_cases [of "AV_vector nil_map" "''AV''" "''Z''"]
    WeightsMetrics_Set_cases [of "AV_vector nil_map" "''AV''" "''A''"]
  by (simp add: AV_vector_def AV_table_def)

section \<open>WeightsMetrics: Parse stops at the first Set that fails\<close>

text \<open>
  C6, as the specification states it, fails: on a vector whose \<open>Metrics\<close> is nil, \<open>Parse\<close>
  panics at the first pair that the table has, and so returns no validation error for
  a later pair that the table does not have.
\<close>

theorem Parse_nil_counterexample:
  "strToMetrics ''XX:Y/AV:N'' = Inr (made [''XX'' \<mapsto> ''Y'', ''AV'' \<mapsto> ''N'']) \<and>
   range_of (entries (made [''XX'' \<mapsto> ''Y'', ''AV'' \<mapsto> ''N''])) [(''AV'', ''N''), (''XX'', ''Y'')] \<and>
   accepts AV_table ''AV'' ''N'' \<and> \<not> accepts AV_table ''XX'' ''Y'' \<and>
   WeightsMetrics_Parse (\<lambda>ms. [(''AV'', ''N''), (''XX'', ''Y'')]) (AV_vector nil_map) ''XX:Y/AV:N''
     = Inl NilMapAssignment"
  by (simp add: strToMetrics_def Split_def partSeparator_def metricSeparator_def range_of_def
      accepts_def WeightsMetrics_Parse_def WeightsMetrics_Set_def AV_vector_def AV_table_def)

text \<open>
  C6, amended. Let the string parse into a map, and let \<open>Parse\<close> visit the map's pairs in
  the order \<open>pre\<close>, then \<open>(m, v)\<close>, then \<open>post\<close>, where the table of weights has every pair
  of \<open>pre\<close> and does not have \<open>(m, v)\<close>, on a vector whose \<open>Metrics\<close> is not nil, or is nil
  with no pair in \<open>pre\<close>. Then \<open>Parse\<close> returns the error of \<open>Set(m, v)\<close>, wrapped with the
  metric and the value; the vector afterwards is the vector before with the pairs of
  \<open>pre\<close> stored, so every pair of \<open>pre\<close> is committed; and \<open>(m, v)\<close> and the pairs of \<open>post\<close>
  are not applied: their metrics hold what they held before.
\<close>

theorem Parse_partial_application:
  assumes "strToMetrics str = Inr metrics" and "range_of (entries metrics) (rng metrics)"
    and "rng metrics = pre @ (m, v) # post"
    and "\<forall>(m', v') \<in> set pre. accepts (Weights wms) m' v'"
    and "\<not> accepts (Weights wms) m v"
    and "pre \<noteq> [] \<longrightarrow> Metrics wms \<noteq> nil_map"
  shows "\<exists>wms'.
    WeightsMetrics_Parse rng wms str =
      Inr (wms', Some (SetContext m v
        (if Weights wms m = None then UnknownMetric m else InvalidValue m v))) \<and>
    wms' = (if pre = [] then wms
            else wms\<lparr>Metrics := made (entries (Metrics wms) ++ map_of pre)\<rparr>) \<and>
    (\<forall>(m', v') \<in> set pre. entries (Metrics wms') m' = Some v') \<and>
    (\<forall>(m', v') \<in> set ((m, v) # post). entries (Metrics wms') m' = entries (Metrics wms) m')"
proof -
  let ?err = "Some (SetContext m v
      (if Weights wms m = None then UnknownMetric m else InvalidValue m v))"
  let ?wms = "if pre = [] then wms
      else wms\<lparr>Metrics := made (entries (Metrics wms) ++ map_of pre)\<rparr>"
  have dist: "distinct (map fst (pre @ (m, v) # post))"
    using assms(2,3) by (simp add: range_of_def)
  then have dpre: "distinct (map fst pre)" by simp
  have W: "Weights ?wms = Weights wms" by simp
  have E: "entries (Metrics ?wms) = entries (Metrics wms) ++ map_of pre" by simp
  have "\<not> accepts (Weights ?wms) m v" using assms(5) W by simp
  then have "WeightsMetrics_Set ?wms m v =
      Inr (?wms, Some (if Weights ?wms m = None then UnknownMetric m else InvalidValue m v))"
    by (rule WeightsMetrics_Set_rejects)
  then have stop: "Parse_loop ?wms ((m, v) # post) = Inr (?wms, ?err)"
    using W by simp
  have "Parse_loop wms (pre @ (m, v) # post) = Parse_loop ?wms ((m, v) # post)"
  proof (cases "pre = []")
    case True
    then show ?thesis by simp
  next
    case False
    with assms(6) obtain ms where ms: "Metrics wms = made ms"
      by (cases "Metrics wms") auto
    with assms(4) dpre
    have "Parse_loop wms (pre @ (m, v) # post) =
        Parse_loop (wms\<lparr>Metrics := made (ms ++ map_of pre)\<rparr>) ((m, v) # post)"
      by (intro Parse_loop_accepted)
    with False ms show ?thesis by simp
  qed
  with stop have res: "WeightsMetrics_Parse rng wms str = Inr (?wms, ?err)"
    by (simp add: WeightsMetrics_Parse_def assms(1,3))
  have "\<forall>(m', v') \<in> set pre. (entries (Metrics wms) ++ map_of pre) m' = Some v'"
    using dpre by (auto simp: map_add_Some_iff)
  then have a: "\<forall>(m', v') \<in> set pre. entries (Metrics ?wms) m' = Some v'"
    unfolding E .
  have "\<forall>(m', v') \<in> set ((m, v) # post).
      (entries (Metrics wms) ++ map_of pre) m' = entries (Metrics wms) m'"
  proof clarify
    fix m' v' assume "(m', v') \<in> set ((m, v) # post)"
    then have "m' \<in> fst ` set ((m, v) # post)" by force
    with dist have "m' \<notin> fst ` set pre" by auto
    then have "map_of pre m' = None" by (simp add: map_of_eq_None_iff)
    then show "(entries (Metrics wms) ++ map_of pre) m' = entries (Metrics wms) m'"
      by (simp add: map_add_def)
  qed
  then have b: "\<forall>(m', v') \<in> set ((m, v) # post).
      entries (Metrics ?wms) m' = entries (Metrics wms) m'"
    unfolding E .
  from res a b show ?thesis by blast
qed

theorem Parse_partial_application_witness:
  "strToMetrics ''AC:L/XX:Y/AV:N''
     = Inr (made [''AC'' \<mapsto> ''L'', ''XX'' \<mapsto> ''Y'', ''AV'' \<mapsto> ''N'']) \<and>
   range_of (entries (made [''AC'' \<mapsto> ''L'', ''XX'' \<mapsto> ''Y'', ''AV'' \<mapsto> ''N'']))
     [(''AV'', ''N''), (''XX'', ''Y''), (''AC'', ''L'')] \<and>
   accepts AV_table ''AV'' ''N'' \<and> \<not> accepts AV_table ''XX'' ''Y'' \<and>
   WeightsMetrics_Parse (\<lambda>ms. [(''AV'', ''N''), (''XX'', ''Y''), (''AC'', ''L'')])
       (AV_vector (made Map.empty)) ''AC:L/XX:Y/AV:N''
     = Inr (AV_vector (made [''AV'' \<mapsto> ''N'']),
         Some (SetContext ''XX'' ''Y'' (UnknownMetric ''XX''))) \<and>
   WeightsMetrics_Parse (\<lambda>ms. [(''XX'', ''Y''), (''AV'', ''N'')]) (AV_vector nil_map) ''AV:N/XX:Y''
     = Inr (AV_vector nil_map, Some (SetContext ''XX'' ''Y'' (UnknownMetric ''XX'')))"
proof -
  let ?ps = "[(''AV'', ''N''), (''XX'', ''Y''), (''AC'', ''L'')]"
  let ?qs = "[(''XX'', ''Y''), (''AV'', ''N'')]"
  have p: "strToMetrics ''AC:L/XX:Y/AV:N''
      = Inr (made [''AC'' \<mapsto> ''L'', ''XX'' \<mapsto> ''Y'', ''AV'' \<mapsto> ''N''])"
    by (simp add: strToMetrics_def Split_def partSeparator_def metricSeparator_def)
  have r: "range_of (entries (made [''AC'' \<mapsto> ''L'', ''XX'' \<mapsto> ''Y'', ''AV'' \<mapsto> ''N''])) ?ps"
    by (simp add: range_of_def)
  have o: "?ps = [(''AV'', ''N'')] @ (''XX'', ''Y'') # [(''AC'', ''L'')]"
    by simp
  have a: "\<forall>(m', v') \<in> set [(''AV'', ''N'')]. accepts (Weights (AV_vector (made Map.empty))) m' v'"
    by (simp add: accepts_def AV_vector_def AV_table_def)
  have n: "\<not> accepts (Weights (AV_vector (made Map.empty))) ''XX'' ''Y''"
    by (simp add: accepts_def AV_vector_def AV_table_def)
  have k: "[(''AV'', ''N'')] \<noteq> [] \<longrightarrow> Metrics (AV_vector (made Map.empty)) \<noteq> nil_map"
    by (simp add: AV_vector_def)
  from Parse_partial_application [of _ _ "\<lambda>ms. ?ps", OF p r o a n k]
  have one: "WeightsMetrics_Parse (\<lambda>ms. ?ps) (AV_vector (made Map.empty)) ''AC:L/XX:Y/AV:N''
     = Inr (AV_vector (made [''AV'' \<mapsto> ''N'']),
         Some (SetContext ''XX'' ''Y'' (UnknownMetric ''XX'')))"
    by (auto simp: AV_vector_def AV_table_def)
  have q: "strToMetrics ''AV:N/XX:Y'' = Inr (made [''AV'' \<mapsto> ''N'', ''XX'' \<mapsto> ''Y''])"
    by (simp add: strToMetrics_def Split_def partSeparator_def metricSeparator_def)
  have rq: "range_of (entries (made [''AV'' \<mapsto> ''N'', ''XX'' \<mapsto> ''Y''])) ?qs"
    by (simp add: range_of_def)
  have oq: "?qs = [] @ (''XX'', ''Y'') # [(''AV'', ''N'')]"
    by simp
  have aq: "\<forall>(m', v') \<in> set []. accepts (Weights (AV_vector nil_map)) m' v'"
    by simp
  have nq: "\<not> accepts (Weights (AV_vector nil_map)) ''XX'' ''Y''"
    by (simp add: accepts_def AV_vector_def AV_table_def)
  have kq: "([] :: (string \<times> string) list) \<noteq> [] \<longrightarrow> Metrics (AV_vector nil_map) \<noteq> nil_map"
    by simp
  from Parse_partial_application [of _ _ "\<lambda>ms. ?qs", OF q rq oq aq nq kq]
  have two: "WeightsMetrics_Parse (\<lambda>ms. ?qs) (AV_vector nil_map) ''AV:N/XX:Y''
     = Inr (AV_vector nil_map, Some (SetContext ''XX'' ''Y'' (UnknownMetric ''XX'')))"
    by (auto simp: AV_vector_def AV_table_def)
  from a n have "accepts AV_table ''AV'' ''N''" and "\<not> accepts AV_table ''XX'' ''Y''"
    by (simp_all add: AV_vector_def)
  with p r one two show ?thesis by blast
qed

section \<open>WeightsMetrics: the stored pairs are pairs of the table\<close>

text \<open>
  C2. Let a vector start with no entries over a table of weights \<open>W\<close> and be touched only
  by \<open>WeightsMetrics.Set\<close> and \<open>WeightsMetrics.Parse\<close>. Then its table is still \<open>W\<close>; every
  metric stored in it is a key of \<open>W\<close> and the stored value is a key of \<open>W[metric]\<close>, so
  \<open>Weight\<close> of a metric that is set succeeds and returns the weight that the table has for
  the metric and its value; and \<open>Weight\<close> fails, with the NotFound error of \<open>Get\<close>, exactly
  for the metrics that are not set. They are the metrics that were never set, since a
  metric that is set at some time is set ever after.
\<close>

theorem Weight_of_reachable:
  assumes "reachable_from \<lparr>Metrics = ms0, Weights = W\<rparr> wms" and "entries ms0 = Map.empty"
  shows "Weights wms = W \<and>
    (\<forall>m v. entries (Metrics wms) m = Some v \<longrightarrow>
       (\<exists>vals w. W m = Some vals \<and> vals v = Some w \<and> Weight wms m = Inr w)) \<and>
    (\<forall>m. (Weight wms m = Inl (WeightContext m (NotFound m))) = (entries (Metrics wms) m = None)) \<and>
    (\<forall>m. (\<exists>w. Weight wms m = Inr w) = (entries (Metrics wms) m \<noteq> None)) \<and>
    (\<forall>wms' m. reachable_from wms wms' \<and> entries (Metrics wms) m \<noteq> None \<longrightarrow>
       entries (Metrics wms') m \<noteq> None)"
proof -
  have "table_holds \<lparr>Metrics = ms0, Weights = W\<rparr>"
    using assms(2) by (simp add: table_holds_def)
  with reachable_from_keeps [OF assms(1)] have inv: "table_holds wms" and W: "Weights wms = W"
    by simp_all
  have "\<exists>vals w. W m = Some vals \<and> vals v = Some w \<and> Weight wms m = Inr w"
    if "entries (Metrics wms) m = Some v" for m v
  proof -
    from inv that have "accepts W m v" by (simp add: table_holds_def W)
    then obtain vals w where "W m = Some vals" "vals v = Some w"
      by (auto simp: accepts_def split: option.splits)
    with that show ?thesis
      by (simp add: Weight_def Metrics_Get_def Weights_index_def W)
  qed
  moreover
  have "(Weight wms m = Inl (WeightContext m (NotFound m))) = (entries (Metrics wms) m = None)"
    for m
    by (simp add: Weight_def Metrics_Get_def split: option.splits)
  moreover have "(\<exists>w. Weight wms m = Inr w) = (entries (Metrics wms) m \<noteq> None)" for m
    by (simp add: Weight_def Metrics_Get_def split: option.splits)
  moreover have "entries (Metrics wms') m \<noteq> None"
    if "reachable_from wms wms'" and "entries (Metrics wms) m \<noteq> None" for wms' m
    using reachable_from_keeps [OF that(1)] that(2) by (auto simp: domIff subset_iff)
  ultimately show ?thesis using W by blast
qed

theorem Weight_of_reachable_witness:
  "reachable_from \<lparr>Metrics = made Map.empty, Weights = AV_table\<rparr>
     (AV_vector (made [''AV'' \<mapsto> ''N''])) \<and>
   entries (made Map.empty) = Map.empty \<and>
   Weight (AV_vector (made [''AV'' \<mapsto> ''N''])) ''AV'' = Inr (85 / 100) \<and>
   Weight (AV_vector (made [''AV'' \<mapsto> ''N''])) ''AC''
     = Inl (WeightContext ''AC'' (NotFound ''AC'')) \<and>
   reachable_from (AV_vector (made [''AV'' \<mapsto> ''N''])) (AV_vector (made [''AV'' \<mapsto> ''A''])) \<and>
   entries (Metrics (AV_vector (made [''AV'' \<mapsto> ''A'']))) ''AV'' \<noteq> None"
proof -
  let ?wms0 = "\<lparr>Metrics = made Map.empty, Weights = AV_table\<rparr>"
  let ?N = "AV_vector (made [''AV'' \<mapsto> ''N''])"
  let ?A = "AV_vector (made [''AV'' \<mapsto> ''A''])"
  have "WeightsMetrics_Set ?wms0 ''AV'' ''N'' = Inr (?N, None)"
    by (simp add: WeightsMetrics_Set_def AV_table_def AV_vector_def)
  with reachable_from.now have r: "reachable_from ?wms0 ?N"
    by (rule reachable_from.after_Set)
  have e: "entries (made Map.empty) = Map.empty"
    by simp
  have "WeightsMetrics_Parse (\<lambda>ms. [(''AV'', ''A'')]) ?N ''AV:A'' = Inr (?A, None)"
    by (simp add: WeightsMetrics_Parse_def strToMetrics_def Split_def partSeparator_def
        metricSeparator_def WeightsMetrics_Set_def AV_table_def AV_vector_def)
  then have l: "reachable_from ?N ?A"
    by (intro reachable_from.after_Parse [OF reachable_from.now,
          of "''AV:A''" "\<lambda>ms. [(''AV'', ''A'')]"])
       (auto simp: strToMetrics_def Split_def partSeparator_def metricSeparator_def range_of_def)
  have s: "entries (Metrics ?N) ''AV'' = Some ''N''"
    and u: "entries (Metrics ?N) ''AC'' = None"
    by (simp_all add: AV_vector_def)
  note th = Weight_of_reachable [OF r e]
  from th s have "\<exists>vals w. AV_table ''AV'' = Some vals \<and> vals ''N'' = Some w \<and>
      Weight ?N ''AV'' = Inr w"
    by blast
  then have a: "Weight ?N ''AV'' = Inr (85 / 100)"
    by (auto simp: AV_table_def)
  from th u have b: "Weight ?N ''AC'' = Inl (WeightContext ''AC'' (NotFound ''AC''))"
    by blast
  from th l s have c: "entries (Metrics ?A) ''AV'' \<noteq> None"
    by (metis option.distinct(1))
  from r e a b l c show ?thesis by blast
qed

section \<open>WeightsMetrics: WeightDefault\<close>

text \<open>
  C7. \<open>WeightDefault\<close> has no error result and does not panic. For a metric that is not
  set it returns the default it was given; for a metric set to \<open>v\<close> it returns
  \<^verbatim>\<open>Weights[metric][v]\<close>, which is the weight stored in the table when the table has one
  for the pair.
\<close>

theorem WeightDefault_total:
  "(entries (Metrics wms) metric = None \<longrightarrow> WeightDefault wms metric d = d) \<and>
   (\<forall>v. entries (Metrics wms) metric = Some v \<longrightarrow>
      WeightDefault wms metric d = Weights_index (Weights wms) metric v) \<and>
   (\<forall>v vals w. entries (Metrics wms) metric = Some v \<and> Weights wms metric = Some vals \<and>
      vals v = Some w \<longrightarrow> WeightDefault wms metric d = w)"
  by (simp add: WeightDefault_def Weight_def Metrics_Get_def Weights_index_def)

theorem WeightDefault_total_witness:
  "entries (Metrics (AV_vector (made [''AV'' \<mapsto> ''N'']))) ''AC'' = None \<and>
   WeightDefault (AV_vector (made [''AV'' \<mapsto> ''N''])) ''AC'' 7 = 7 \<and>
   entries (Metrics (AV_vector (made [''AV'' \<mapsto> ''N'']))) ''AV'' = Some ''N'' \<and>
   WeightDefault (AV_vector (made [''AV'' \<mapsto> ''N''])) ''AV'' 7 = 85 / 100 \<and>
   WeightDefault (AV_vector nil_map) ''AV'' 7 = 7"
  using WeightDefault_total [of "AV_vector (made [''AV'' \<mapsto> ''N''])" "''AC''" 7]
    WeightDefault_total [of "AV_vector (made [''AV'' \<mapsto> ''N''])" "''AV''" 7]
    WeightDefault_total [of "AV_vector nil_map" "''AV''" 7]
  by (auto simp add: AV_vector_def AV_table_def Weights_index_def)

end
